theory Spec2Isabelle
  imports Main
begin

section \<open>JavaScript values and built-ins used by the component\<close>

text \<open>
  A value whose static type the source does not trust: \<open>undefined\<close>, \<open>null\<close>, an array of
  strings, or any other value (\<open>Other t\<close>, where \<open>t\<close> is its truthiness).
\<close>

datatype jsval = Undefined | Null | Arr "string list" | Other bool

definition truthy :: "jsval \<Rightarrow> bool" where
  "truthy v = (case v of Undefined \<Rightarrow> False | Null \<Rightarrow> False | Arr xs \<Rightarrow> True | Other t \<Rightarrow> t)"

definition isArray :: "jsval \<Rightarrow> bool" where
  "isArray v = (case v of Arr xs \<Rightarrow> True | _ \<Rightarrow> False)"

text \<open>The only exception a step of the component can throw: a method call on \<open>null\<close>.\<close>

datatype error = TypeError

text \<open>\<open>String.prototype.trim\<close>: white space and line terminators among the code units below 256.\<close>

definition isWhiteSpace :: "char \<Rightarrow> bool" where
  "isWhiteSpace c = ((of_char c :: nat) \<in> {9, 10, 11, 12, 13, 32, 160})"

definition trim :: "string \<Rightarrow> string" where
  "trim s = rev (dropWhile isWhiteSpace (rev (dropWhile isWhiteSpace s)))"

section \<open>The MCP server list of the backend: getMCPs and its route\<close>

record mcpServerConfig =
  defaultMCPServers :: "string list option"

record customConfig =
  mcpServers :: "string list option"
  mcpServerConfig :: "mcpServerConfig option"

record mcpOption =
  name :: string
  isDefault :: bool

text \<open>
  The collaborators of \<open>getMCPs\<close>, each of which may throw or reject (\<open>Inl\<close>):
  \<open>getCustomConfig()\<close> (whose result may be \<open>undefined\<close>), \<open>getMCPManager()\<close> and the
  manager's \<open>getServerNames()\<close>. \<open>logger.error\<close> and \<open>console.log\<close> only write a log line.
\<close>

record 'e mcpEnv =
  getCustomConfig :: "'e + customConfig option"
  getMCPManager :: "'e + unit"
  getServerNames :: "'e + string list"

text \<open>The body of the \<open>try\<close> block of \<open>getMCPs\<close>.\<close>

definition getMCPs_try :: "'e mcpEnv \<Rightarrow> 'e + mcpOption list" where
  "getMCPs_try env =
     (case getCustomConfig env of
        Inl e \<Rightarrow> Inl e
      | Inr None \<Rightarrow> Inr []
      | Inr (Some cfg) \<Rightarrow>
          (case mcpServers cfg of
             None \<Rightarrow> Inr []
           | Some _ \<Rightarrow>
               (case getMCPManager env of
                  Inl e \<Rightarrow> Inl e
                | Inr _ \<Rightarrow>
                    (case getServerNames env of
                       Inl e \<Rightarrow> Inl e
                     | Inr servers \<Rightarrow>
                         (let defaults =
                                (case mcpServerConfig cfg of
                                   None \<Rightarrow> []
                                 | Some c \<Rightarrow> (case defaultMCPServers c of None \<Rightarrow> [] | Some d \<Rightarrow> d));
                              defaultMCPSet = set defaults
                          in Inr (map (\<lambda>server. \<lparr>name = server, isDefault = server \<in> defaultMCPSet\<rparr>)
                                    servers))))))"

text \<open>\<open>getMCPs\<close>: the \<open>catch\<close> block logs the error and returns the empty array.\<close>

definition getMCPs :: "'e mcpEnv \<Rightarrow> 'e + mcpOption list" where
  "getMCPs env = (case getMCPs_try env of Inl e \<Rightarrow> Inr [] | Inr options \<Rightarrow> Inr options)"

datatype 'e responseBody = Mcps "mcpOption list" | Failure string 'e

record 'e response =
  status :: nat
  body :: "'e responseBody"

text \<open>The handler of \<open>GET /\<close> behind \<open>requireJwtAuth\<close>.\<close>

definition router_get :: "'e mcpEnv \<Rightarrow> 'e response" where
  "router_get env =
     (case getMCPs env of
        Inr mcps \<Rightarrow> \<lparr>status = 200, body = Mcps mcps\<rparr>
      | Inl e \<Rightarrow> \<lparr>status = 500, body = Failure ''Failed to retrieve categories'' e\<rparr>)"

section \<open>MCPSelect: the selection state of the client\<close>

text \<open>
  Modelled from the spec: \<open>Constants.NEW_CONVO\<close> and \<open>LocalStorageKeys.LAST_MCP_\<close> of
  \<open>librechat-data-provider\<close> are not among the sources; they are the spec's sentinel
  "new conversation" context key and the namespace prefix of the persisted snapshots.
\<close>

definition NEW_CONVO :: string where
  "NEW_CONVO = ''new''"

definition LAST_MCP :: string where
  "LAST_MCP = ''LAST_MCP_''"

text \<open>The ephemeral agent of a conversation: its \<open>mcp\<close> property and its other properties.\<close>

record ephemeralAgent =
  mcp :: "string list option"
  otherProps :: "(string \<times> bool) list"

text \<open>
  The state behind one mounted \<open>MCPSelect\<close>: the current \<open>key\<close>, the ref \<open>hasSetFetched\<close>,
  the value \<open>mcpValues\<close> held by the storage hook (\<open>None\<close> is \<open>null\<close> or \<open>undefined\<close>), the
  Recoil atom family \<open>ephemeralAgentByConvoId\<close>, and \<open>localStorage\<close> as the \<open>setItem\<close> calls
  made so far, newest first, each with the array that was serialised.
\<close>

record mcpSelect =
  key :: string
  hasSetFetched :: "string option"
  mcpValues :: "string list option"
  ephemeralAgentByConvoId :: "string \<Rightarrow> ephemeralAgent option"
  localStorage :: "(string \<times> string list) list"

text \<open>
  \<open>storageCondition\<close>, the predicate that \<open>MCPSelect\<close> hands to the storage hook together
  with the global setter: the value to store and the raw text now stored under the key.
\<close>

definition isNonEmptyArray :: "jsval \<Rightarrow> bool" where
  "isNonEmptyArray v = (case v of Arr xs \<Rightarrow> 0 < length xs | _ \<Rightarrow> False)"

definition storageCondition :: "jsval \<Rightarrow> string option \<Rightarrow> bool" where
  "storageCondition val rawCurrentValue =
     (case rawCurrentValue of
        None \<Rightarrow> isNonEmptyArray val
      | Some raw \<Rightarrow>
          if raw = [] then isNonEmptyArray val
          else if 2 < length (trim raw) then True
          else isNonEmptyArray val)"

text \<open>\<open>setSelectedValues\<close>: both guards return without touching the agent.\<close>

definition setSelectedValues :: "jsval \<Rightarrow> mcpSelect \<Rightarrow> mcpSelect" where
  "setSelectedValues vals s =
     (if \<not> truthy vals then s
      else case vals of
        Arr vs \<Rightarrow>
          s\<lparr>ephemeralAgentByConvoId := (ephemeralAgentByConvoId s)
               (key s := Some (case ephemeralAgentByConvoId s (key s) of
                                 None \<Rightarrow> \<lparr>mcp = Some vs, otherProps = []\<rparr>
                               | Some prev \<Rightarrow> prev\<lparr>mcp := Some vs\<rparr>))\<rparr>
      | _ \<Rightarrow> s)"

text \<open>
  Modelled from the spec: the hook \<open>useLocalStorage\<close> of \<open>~/hooks/useLocalStorageAlt\<close> is
  not among the sources. Its setter \<open>setMCPValues\<close> commits a selection as the spec's
  persistence adapter has it: the value becomes the hook's value, \<open>save\<close> is invoked (one
  \<open>localStorage.setItem\<close> under \<open>LAST_MCP_\<close> followed by the key, on every committed
  mutation), and the global setter passed at the call site, \<open>setSelectedValues\<close>, receives
  the value. What the hook does with the \<open>storageCondition\<close> it is handed is not in the
  sources and is not part of this definition.
\<close>

definition setMCPValues :: "string list \<Rightarrow> mcpSelect \<Rightarrow> mcpSelect" where
  "setMCPValues val s =
     (let storageKey = LAST_MCP @ key s;
          s1 = s\<lparr>mcpValues := Some val\<rparr>;
          s2 = s1\<lparr>localStorage := (storageKey, val) # localStorage s1\<rparr>
      in setSelectedValues (Arr val) s2)"

text \<open>
  Modelled from the spec: the same hook seeds its value when the key changes (\<open>load\<close>: the
  persisted snapshot if present, else the default passed at the call site, which is
  \<open>ephemeralAgent?.mcp ?? []\<close>), and hands the seed to the global setter.
  \<open>key = conversationId ?? Constants.NEW_CONVO\<close>; the ref \<open>hasSetFetched\<close> is untouched.
\<close>

definition mcpState :: "mcpSelect \<Rightarrow> string list" where
  "mcpState s =
     (case ephemeralAgentByConvoId s (key s) of
        None \<Rightarrow> []
      | Some agent \<Rightarrow> (case mcp agent of None \<Rightarrow> [] | Some m \<Rightarrow> m))"

definition setConversationId :: "string option \<Rightarrow> mcpSelect \<Rightarrow> mcpSelect" where
  "setConversationId conversationId s =
     (let s1 = s\<lparr>key := (case conversationId of None \<Rightarrow> NEW_CONVO | Some c \<Rightarrow> c)\<rparr>;
          initialValue = (case map_of (localStorage s1) (LAST_MCP @ key s1) of
                            Some stored \<Rightarrow> stored
                          | None \<Rightarrow> mcpState s1)
      in setSelectedValues (Arr initialValue) (s1\<lparr>mcpValues := Some initialValue\<rparr>))"

text \<open>A freshly mounted component: no agent, nothing stored, the ref \<open>null\<close>.\<close>

definition mount :: "string option \<Rightarrow> mcpSelect" where
  "mount conversationId =
     setConversationId conversationId
       \<lparr>key = NEW_CONVO, hasSetFetched = None, mcpValues = Some [],
        ephemeralAgentByConvoId = (\<lambda>k. None), localStorage = []\<rparr>"

subsection \<open>The default servers\<close>

definition loadingMCPServers :: "mcpOption list" where
  "loadingMCPServers = [\<lparr>name = ''time'', isDefault = True\<rparr>]"

text \<open>
  \<open>useGetMCP\<close> with its \<open>select\<close>: the response items carry an optional \<open>isDefault\<close>, made a
  boolean by \<open>Boolean(...)\<close>; while the data is \<open>undefined\<close> the list is \<open>loadingMCPServers\<close>.
\<close>

definition mcpServersData :: "(string \<times> bool option) list option \<Rightarrow> mcpOption list" where
  "mcpServersData fetched =
     (case fetched of
        None \<Rightarrow> loadingMCPServers
      | Some response \<Rightarrow>
          map (\<lambda>(n, d). \<lparr>name = n, isDefault = (case d of None \<Rightarrow> False | Some b \<Rightarrow> b)\<rparr>) response)"

definition defaultServerNames :: "mcpOption list \<Rightarrow> string list" where
  "defaultServerNames servers = map name (filter isDefault servers)"

subsection \<open>The two effects\<close>

text \<open>The effect that adds the missing default servers to \<open>mcpValues\<close>.\<close>

definition defaultsEffect :: "string list \<Rightarrow> mcpSelect \<Rightarrow> mcpSelect" where
  "defaultsEffect defaults s =
     (case mcpValues s of
        None \<Rightarrow> setMCPValues defaults s
      | Some vs \<Rightarrow>
          (let missingDefaults = filter (\<lambda>server. server \<notin> set vs) defaults
           in if 0 < length missingDefaults then setMCPValues (vs @ missingDefaults) s else s))"

text \<open>
  The effect that prunes \<open>mcpValues\<close> against \<open>mcpServerSet\<close>, given as the list of the set's
  members (\<open>None\<close> while the query has no data). \<open>mcpValues.filter\<close> throws on \<open>null\<close>.
\<close>

definition setSize :: "string list option \<Rightarrow> nat" where
  "setSize mcpServerSet = (case mcpServerSet of None \<Rightarrow> 0 | Some members \<Rightarrow> length members)"

definition setHas :: "string list option \<Rightarrow> string \<Rightarrow> bool" where
  "setHas mcpServerSet x = (case mcpServerSet of None \<Rightarrow> False | Some members \<Rightarrow> x \<in> set members)"

definition pruneEffect :: "bool \<Rightarrow> string list option \<Rightarrow> mcpSelect \<Rightarrow> error + mcpSelect" where
  "pruneEffect isFetched mcpServerSet s =
     (if hasSetFetched s = Some (key s) then Inr s
      else if \<not> isFetched then Inr s
      else
        (let s1 = s\<lparr>hasSetFetched := Some (key s)\<rparr>
         in if 0 < setSize mcpServerSet then
              (case mcpValues s1 of
                 None \<Rightarrow> Inl TypeError
               | Some vs \<Rightarrow> Inr (setMCPValues (filter (setHas mcpServerSet) vs) s1))
            else Inr (setMCPValues [] s1)))"

subsection \<open>Events\<close>

text \<open>
  What can happen to a mounted component: the user changes the selection in the
  \<open>MultiSelect\<close> (whose \<open>setSelectedValues\<close> prop is \<open>setMCPValues\<close>), the defaults effect
  runs with the current default servers, the pruning effect runs with the current state of
  the availability query, or the \<open>conversationId\<close> prop changes. Each event reads the
  state left by the event before it, as an effect does after the render that follows a change.
\<close>

datatype event =
    SetSelected "string list"
  | DefaultsChanged "string list"
  | AvailabilityResolved bool "string list option"
  | ConversationChanged "string option"

fun step :: "event \<Rightarrow> mcpSelect \<Rightarrow> error + mcpSelect" where
  "step (SetSelected vals) s = Inr (setMCPValues vals s)"
| "step (DefaultsChanged defaults) s = Inr (defaultsEffect defaults s)"
| "step (AvailabilityResolved isFetched mcpServerSet) s = pruneEffect isFetched mcpServerSet s"
| "step (ConversationChanged conversationId) s = Inr (setConversationId conversationId s)"

fun run :: "event list \<Rightarrow> mcpSelect \<Rightarrow> error + mcpSelect" where
  "run [] s = Inr s"
| "run (e # es) s = (case step e s of Inl err \<Rightarrow> Inl err | Inr s' \<Rightarrow> run es s')"

fun keepsKey :: "event \<Rightarrow> bool" where
  "keepsKey (ConversationChanged conversationId) = False"
| "keepsKey e = True"

text \<open>The selection of the current key after a run, as the hook and as the agent hold it.\<close>

definition selectedAfter :: "event list \<Rightarrow> mcpSelect \<Rightarrow> string list option" where
  "selectedAfter es s = (case run es s of Inl err \<Rightarrow> None | Inr s' \<Rightarrow> mcpValues s')"

definition agentMcp :: "mcpSelect \<Rightarrow> string list option" where
  "agentMcp s = (case ephemeralAgentByConvoId s (key s) of None \<Rightarrow> None | Some agent \<Rightarrow> mcp agent)"

subsection \<open>Rendering\<close>

text \<open>
  \<open>renderSelectedValues\<close>, with the two values its closure holds: the default server names
  and \<open>localize\<close> (a phrase key and the optional count to a text).
\<close>

definition renderSelectedValues ::
  "string list \<Rightarrow> (string \<Rightarrow> nat option \<Rightarrow> string) \<Rightarrow> string list \<Rightarrow> string option \<Rightarrow> string" where
  "renderSelectedValues defaults localize vals placeholder =
     (let filteredValues = filter (\<lambda>v. v \<notin> set defaults) vals
      in if length filteredValues = 0 then
           (case placeholder of
              None \<Rightarrow> localize ''com_ui_select'' None @ ''...''
            | Some p \<Rightarrow> if p = [] then localize ''com_ui_select'' None @ ''...'' else p)
         else if length filteredValues = 1 then filteredValues ! 0
         else localize ''com_ui_x_selected'' (Some (length filteredValues)))"

text \<open>
  A call of \<open>renderSelectedValues\<close> in a state of the component: the body calls no setter
  and writes nothing, so the call leaves the state as it found it.
\<close>

definition renderLabel ::
  "string list \<Rightarrow> (string \<Rightarrow> nat option \<Rightarrow> string) \<Rightarrow> string list \<Rightarrow> string option \<Rightarrow> mcpSelect
     \<Rightarrow> string \<times> mcpSelect" where
  "renderLabel defaults localize vals ph s = (renderSelectedValues defaults localize vals ph, s)"




record multiSelectProps =
  items :: "string list"
  selectedValues :: "string list"
  placeholder :: "string option"
  renderValues :: "string list \<Rightarrow> string option \<Rightarrow> string"

text \<open>The memoised \<open>mcpServers\<close> of \<open>MCPSelect\<close>.\<close>

definition mcpServersMemo :: "string list \<Rightarrow> string list option \<Rightarrow> string list option" where
  "mcpServersMemo defaults mcpServerSet =
     (case mcpServerSet of
        None \<Rightarrow> None
      | Some members \<Rightarrow>
          if length members = 0 then None
          else Some (filter (\<lambda>server. server \<notin> set defaults) members))"

text \<open>
  What \<open>MCPSelect\<close> returns: \<open>None\<close> for \<open>null\<close>, else the props of the \<open>MultiSelect\<close>
  element. \<open>cbDefaults\<close> and \<open>memoDefaults\<close> are the default server names held by the
  \<open>renderSelectedValues\<close> callback and by the \<open>mcpServers\<close> memo.
\<close>

definition MCPSelect ::
  "(string \<Rightarrow> nat option \<Rightarrow> string) \<Rightarrow> string list \<Rightarrow> string list \<Rightarrow> string list option \<Rightarrow> mcpSelect
     \<Rightarrow> multiSelectProps option" where
  "MCPSelect localize cbDefaults memoDefaults mcpServerSet s =
     (case mcpServerSet of
        None \<Rightarrow> None
      | Some members \<Rightarrow>
          if length members = 0 then None
          else Some \<lparr>items = (case mcpServersMemo memoDefaults mcpServerSet of None \<Rightarrow> [] | Some servers \<Rightarrow> servers),
                     selectedValues = (case mcpValues s of None \<Rightarrow> [] | Some vs \<Rightarrow> vs),
                     placeholder = Some (localize ''com_ui_mcp_servers'' None),
                     renderValues = renderSelectedValues cbDefaults localize\<rparr>)"

record multiSelectView =
  selectValue :: "string list"
  selectText :: string
  selectItems :: "string list"

definition serverNamesForFiltering :: "string list \<Rightarrow> string list" where
  "serverNamesForFiltering defaults = (if 0 < length defaults then defaults else [''time''])"

text \<open>
  What \<open>MultiSelect\<close> returns: \<open>None\<close> for \<open>null\<close>, else the value of the select provider,
  the text of the select button and the items of the popover.
\<close>

definition MultiSelect :: "(string \<times> bool option) list option \<Rightarrow> multiSelectProps \<Rightarrow> multiSelectView option" where
  "MultiSelect fetched props =
     (let names = serverNamesForFiltering (defaultServerNames (mcpServersData fetched));
          filteredSelectedValues = filter (\<lambda>v. v \<notin> set names) (selectedValues props)
      in if length filteredSelectedValues = 0 then None
         else Some \<lparr>selectValue = filteredSelectedValues,
                    selectText = renderValues props filteredSelectedValues
                                   (Some (case placeholder props of None \<Rightarrow> ''Select...'' | Some p \<Rightarrow> p)),
                    selectItems = items props\<rparr>)"

section \<open>How the setters and the effects change the state\<close>

lemma setSelectedValues_fields [simp]:
  "key (setSelectedValues v s) = key s"
  "hasSetFetched (setSelectedValues v s) = hasSetFetched s"
  "mcpValues (setSelectedValues v s) = mcpValues s"
  "localStorage (setSelectedValues v s) = localStorage s"
  by (simp_all add: setSelectedValues_def split: jsval.splits)

lemma agentMcp_setSelectedValues_Arr [simp]: "agentMcp (setSelectedValues (Arr vs) s) = Some vs"
  by (simp add: agentMcp_def setSelectedValues_def truthy_def split: option.splits)

lemma setMCPValues_fields [simp]:
  "key (setMCPValues v s) = key s"
  "hasSetFetched (setMCPValues v s) = hasSetFetched s"
  "mcpValues (setMCPValues v s) = Some v"
  "agentMcp (setMCPValues v s) = Some v"
  by (simp_all add: setMCPValues_def Let_def)

lemma localStorage_setMCPValues:
  "localStorage (setMCPValues v s) = (LAST_MCP @ key s, v) # localStorage s"
  by (simp add: setMCPValues_def Let_def)

lemma defaultsEffect_fields [simp]:
  "key (defaultsEffect d s) = key s"
  "hasSetFetched (defaultsEffect d s) = hasSetFetched s"
  by (simp_all add: defaultsEffect_def Let_def split: option.splits)

lemma mcpValues_defaultsEffect:
  "mcpValues (defaultsEffect d s) =
     Some (case mcpValues s of None \<Rightarrow> d | Some vs \<Rightarrow> vs @ filter (\<lambda>server. server \<notin> set vs) d)"
  by (simp add: defaultsEffect_def Let_def split: option.splits)

lemma defaultsEffect_fixed:
  assumes "mcpValues t = Some ws" and "set d \<subseteq> set ws"
  shows "defaultsEffect d t = t"
proof -
  have "filter (\<lambda>server. server \<notin> set ws) d = []"
    using assms(2) by (auto simp: filter_empty_conv)
  then show ?thesis using assms(1) by (simp add: defaultsEffect_def)
qed

lemma defaultsEffect_idem: "defaultsEffect d (defaultsEffect d s) = defaultsEffect d s"
proof (rule defaultsEffect_fixed)
  show "mcpValues (defaultsEffect d s) =
     Some (case mcpValues s of None \<Rightarrow> d | Some vs \<Rightarrow> vs @ filter (\<lambda>server. server \<notin> set vs) d)"
    by (rule mcpValues_defaultsEffect)
  show "set d \<subseteq> set (case mcpValues s of None \<Rightarrow> d | Some vs \<Rightarrow> vs @ filter (\<lambda>server. server \<notin> set vs) d)"
    by (auto split: option.splits)
qed

lemma mount_c1:
  "mount (Some ''c1'') = \<lparr>key = ''c1'', hasSetFetched = None, mcpValues = Some [],
     ephemeralAgentByConvoId = (\<lambda>k. None)(''c1'' := Some \<lparr>mcp = Some [], otherProps = []\<rparr>),
     localStorage = []\<rparr>"
  by (simp add: mount_def setConversationId_def mcpState_def Let_def setSelectedValues_def truthy_def)

lemma pruneEffect_sets_ref:
  "pruneEffect True A s = Inr s' \<Longrightarrow> hasSetFetched s' = Some (key s') \<and> key s' = key s"
  by (auto simp: pruneEffect_def Let_def split: if_splits option.splits)

lemma pruneEffect_guarded:
  "hasSetFetched s = Some (key s) \<Longrightarrow> pruneEffect isFetched A s = Inr s"
  by (simp add: pruneEffect_def)

lemma step_keeps_guard:
  "keepsKey e \<Longrightarrow> hasSetFetched s = Some (key s) \<Longrightarrow> step e s = Inr s'
     \<Longrightarrow> hasSetFetched s' = Some (key s') \<and> key s' = key s"
  by (cases e) (auto simp: pruneEffect_guarded)

lemma run_keeps_guard:
  "list_all keepsKey es \<Longrightarrow> hasSetFetched s = Some (key s) \<Longrightarrow> run es s = Inr s'
     \<Longrightarrow> hasSetFetched s' = Some (key s') \<and> key s' = key s"
proof (induction es arbitrary: s)
  case Nil
  then show ?case by simp
next
  case (Cons e es)
  from Cons.prems(3) obtain t where t: "step e s = Inr t" and r: "run es t = Inr s'"
    by (auto split: sum.splits)
  from Cons.prems(1) have ke: "keepsKey e" and kes: "list_all keepsKey es" by simp_all
  from step_keeps_guard [OF ke Cons.prems(2) t]
  have g: "hasSetFetched t = Some (key t)" and k: "key t = key s" by simp_all
  from Cons.IH [OF kes g r] k show ?case by simp
qed

lemma run_append:
  "run (es @ fs) s = (case run es s of Inl err \<Rightarrow> Inl err | Inr s' \<Rightarrow> run fs s')"
  by (induction es arbitrary: s) (auto split: sum.splits)

lemma step_total:
  "mcpValues s = Some sel \<Longrightarrow> \<exists>s' sel'. step e s = Inr s' \<and> mcpValues s' = Some sel'"
  by (cases e)
     (auto simp: pruneEffect_def Let_def mcpValues_defaultsEffect setConversationId_def)

lemma run_total:
  "mcpValues s = Some sel \<Longrightarrow> \<exists>s' sel'. run es s = Inr s' \<and> mcpValues s' = Some sel'"
proof (induction es arbitrary: s sel)
  case Nil
  then show ?case by simp
next
  case (Cons e es)
  from step_total [OF Cons.prems, of e] obtain t sel' where
    t: "step e s = Inr t" and m: "mcpValues t = Some sel'" by blast
  from Cons.IH [OF m] t show ?case by simp
qed

text \<open>The one way a step can throw: pruning against a non-empty set while \<open>mcpValues\<close> is \<open>null\<close>.\<close>

lemma pruneEffect_null_throws:
  "hasSetFetched s \<noteq> Some (key s) \<Longrightarrow> mcpValues s = None
     \<Longrightarrow> pruneEffect True (Some (a # A)) s = Inl TypeError"
  by (simp add: pruneEffect_def Let_def setSize_def)

section \<open>The defaults effect\<close>

text \<open>
  Claim C7. Running the defaults effect twice with the same default servers gives the same
  state as running it once, whatever the state before: the hook's value, the agent of
  every conversation and the stored snapshots are all equal.
\<close>

theorem onDefaultsChanged_idempotent:
  "defaultsEffect D (defaultsEffect D s) = defaultsEffect D s
   \<and> run [DefaultsChanged D, DefaultsChanged D] s = run [DefaultsChanged D] s"
  by (simp add: defaultsEffect_idem)

theorem onDefaultsChanged_idempotent_witness:
  "run [DefaultsChanged [''time'', ''web''], DefaultsChanged [''time'', ''web'']] (mount (Some ''c1''))
     = run [DefaultsChanged [''time'', ''web'']] (mount (Some ''c1''))
   \<and> selectedAfter [DefaultsChanged [''time'', ''web'']] (mount (Some ''c1'')) = Some [''time'', ''web'']"
  using onDefaultsChanged_idempotent [of "[''time'', ''web'']" "mount (Some ''c1'')"]
  by (simp add: selectedAfter_def mcpValues_defaultsEffect mount_def setConversationId_def mcpState_def Let_def)

text \<open>
  Claim C1, as the code has it. The component keeps no record of removed defaults: after the
  user has set the selection to \<open>V\<close>, the defaults effect with the defaults \<open>D'\<close> leaves
  \<open>V\<close> followed by the members of \<open>D'\<close> missing from \<open>V\<close>, in the hook and in the agent;
  and in every state the selection after the effect holds every member of \<open>D'\<close>, so a
  removed default that is still a default is selected again.
\<close>

theorem defaults_readded_after_removal:
  "mcpValues (defaultsEffect D' (setMCPValues V s)) = Some (V @ filter (\<lambda>d. d \<notin> set V) D')
   \<and> agentMcp (defaultsEffect D' (setMCPValues V s)) = Some (V @ filter (\<lambda>d. d \<notin> set V) D')
   \<and> (\<exists>sel. mcpValues (defaultsEffect D' s) = Some sel \<and> set D' \<subseteq> set sel)"
proof -
  have a: "mcpValues (defaultsEffect D' (setMCPValues V s)) = Some (V @ filter (\<lambda>d. d \<notin> set V) D')"
    by (simp add: mcpValues_defaultsEffect)
  have b: "agentMcp (defaultsEffect D' (setMCPValues V s)) = Some (V @ filter (\<lambda>d. d \<notin> set V) D')"
    by (simp add: defaultsEffect_def Let_def)
  have c: "\<exists>sel. mcpValues (defaultsEffect D' s) = Some sel \<and> set D' \<subseteq> set sel"
    by (auto simp: mcpValues_defaultsEffect split: option.splits)
  from a b c show ?thesis by blast
qed

theorem defaults_readded_after_removal_witness:
  "mcpValues (defaultsEffect [''a'', ''b'', ''c''] (setMCPValues [''b''] (mount (Some ''c1''))))
     = Some [''b'', ''a'', ''c'']
   \<and> agentMcp (defaultsEffect [''a'', ''b'', ''c''] (setMCPValues [''b''] (mount (Some ''c1''))))
     = Some [''b'', ''a'', ''c'']"
  using defaults_readded_after_removal [of "[''a'', ''b'', ''c'']" "[''b'']" "mount (Some ''c1'')"]
  by simp

text \<open>
  The claim as stated fails on the property's own example: with the defaults \<open>a, b\<close>
  observed and \<open>a\<close> removed by the user, the defaults \<open>a, b, c\<close> bring \<open>a\<close> back.
\<close>

theorem explicit_removal_counterexample:
  "selectedAfter [DefaultsChanged [''a'', ''b''], SetSelected [''b'']] (mount (Some ''c1'')) = Some [''b'']
   \<and> selectedAfter [DefaultsChanged [''a'', ''b''], SetSelected [''b''], DefaultsChanged [''a'', ''b'', ''c'']]
        (mount (Some ''c1'')) = Some [''b'', ''a'', ''c'']"
  by (simp add: selectedAfter_def mcpValues_defaultsEffect)

section \<open>The pruning effect\<close>

text \<open>
  Claim C2, as the code has it. The ref \<open>hasSetFetched\<close> holds the key of the last pruning
  only. After a pruning under a key, and any events that keep the key (selections, defaults,
  further availability results), another availability result is a no-op; and while the
  query is not fetched the effect changes nothing.
\<close>

theorem prune_once_per_stay:
  assumes "run (AvailabilityResolved True A1 # es) s = Inr s'"
    and "list_all keepsKey es"
  shows "step (AvailabilityResolved isFetched A2) s' = Inr s'
         \<and> run (AvailabilityResolved True A1 # es @ [AvailabilityResolved isFetched A2]) s = Inr s'
         \<and> key s' = key s
         \<and> step (AvailabilityResolved False A) t = Inr t"
proof -
  from assms(1) obtain u where u: "pruneEffect True A1 s = Inr u" and r: "run es u = Inr s'"
    by (auto split: sum.splits)
  from pruneEffect_sets_ref [OF u] have gu: "hasSetFetched u = Some (key u)" and ku: "key u = key s"
    by simp_all
  from run_keeps_guard [OF assms(2) gu r] have g: "hasSetFetched s' = Some (key s')" and k: "key s' = key u"
    by simp_all
  have 1: "step (AvailabilityResolved isFetched A2) s' = Inr s'"
    using g by (simp add: pruneEffect_guarded)
  have 2: "run (AvailabilityResolved True A1 # es @ [AvailabilityResolved isFetched A2]) s = Inr s'"
    using u r 1 by (simp add: run_append)
  have 3: "step (AvailabilityResolved False A) t = Inr t"
    by (simp add: pruneEffect_def)
  from 1 2 3 k ku show ?thesis by simp
qed

theorem prune_once_per_stay_witness:
  "run [AvailabilityResolved True (Some [''a'', ''b'']), SetSelected [''a'', ''b'']] (mount (Some ''c1''))
     = Inr (setMCPValues [''a'', ''b''] (setMCPValues [] ((mount (Some ''c1''))\<lparr>hasSetFetched := Some ''c1''\<rparr>)))
   \<and> list_all keepsKey [SetSelected [''a'', ''b'']]
   \<and> run [AvailabilityResolved True (Some [''a'', ''b'']), SetSelected [''a'', ''b''],
           AvailabilityResolved True (Some [''a''])] (mount (Some ''c1''))
     = Inr (setMCPValues [''a'', ''b''] (setMCPValues [] ((mount (Some ''c1''))\<lparr>hasSetFetched := Some ''c1''\<rparr>)))"
proof -
  have r: "run (AvailabilityResolved True (Some [''a'', ''b'']) # [SetSelected [''a'', ''b'']]) (mount (Some ''c1''))
     = Inr (setMCPValues [''a'', ''b''] (setMCPValues [] ((mount (Some ''c1''))\<lparr>hasSetFetched := Some ''c1''\<rparr>)))"
    by (simp add: mount_c1 pruneEffect_def setSize_def Let_def)
  have k: "list_all keepsKey [SetSelected [''a'', ''b'']]" by simp
  from prune_once_per_stay [OF r k, of True "Some [''a'']"] r k show ?thesis by simp
qed

text \<open>
  The claim as stated fails when the conversation changes in between: after a pruning under
  \<open>c1\<close>, a visit to \<open>c2\<close> (pruned in turn) and the return to \<open>c1\<close>, the ref holds \<open>c2\<close>,
  and the next availability result prunes \<open>c1\<close> again, removing the server \<open>b\<close> that the
  user selected after the first pruning.
\<close>

theorem prune_reruns_counterexample:
  "selectedAfter
     [AvailabilityResolved True (Some [''a'', ''b'']), SetSelected [''a'', ''b''],
      ConversationChanged (Some ''c2''), AvailabilityResolved True (Some [''a'', ''b'']),
      ConversationChanged (Some ''c1'')] (mount (Some ''c1'')) = Some [''a'', ''b'']
   \<and> selectedAfter
     [AvailabilityResolved True (Some [''a'', ''b'']), SetSelected [''a'', ''b''],
      ConversationChanged (Some ''c2''), AvailabilityResolved True (Some [''a'', ''b'']),
      ConversationChanged (Some ''c1''), AvailabilityResolved True (Some [''a''])]
     (mount (Some ''c1'')) = Some [''a'']"
  by code_simp

text \<open>
  Claim C3. On the first availability result under a key (the ref does not hold the key, the
  query is fetched), with the selection \<open>vs\<close>: if the set has a member, the selection
  becomes the members of \<open>vs\<close> that are in the set, in the hook and in the agent; if the set
  is empty, the selection becomes empty. The effect does not read the default servers, so
  it puts none back.
\<close>

theorem first_prune_intersects_or_clears:
  assumes "hasSetFetched s \<noteq> Some (key s)" and "mcpValues s = Some vs"
  shows "(\<exists>s'. pruneEffect True (Some (a # A)) s = Inr s'
            \<and> mcpValues s' = Some (filter (\<lambda>m. m \<in> set (a # A)) vs)
            \<and> agentMcp s' = Some (filter (\<lambda>m. m \<in> set (a # A)) vs)
            \<and> set (filter (\<lambda>m. m \<in> set (a # A)) vs) = set vs \<inter> set (a # A)
            \<and> hasSetFetched s' = Some (key s))
         \<and> (\<exists>s'. pruneEffect True (Some []) s = Inr s'
            \<and> mcpValues s' = Some [] \<and> agentMcp s' = Some []
            \<and> hasSetFetched s' = Some (key s))"
proof -
  have sh: "setHas (Some (a # A)) = (\<lambda>m. m \<in> set (a # A))"
    by (rule ext) (simp add: setHas_def)
  have 1: "pruneEffect True (Some (a # A)) s
            = Inr (setMCPValues (filter (\<lambda>m. m \<in> set (a # A)) vs) (s\<lparr>hasSetFetched := Some (key s)\<rparr>))"
    using assms by (simp add: pruneEffect_def Let_def setSize_def sh)
  have 2: "pruneEffect True (Some []) s = Inr (setMCPValues [] (s\<lparr>hasSetFetched := Some (key s)\<rparr>))"
    using assms by (simp add: pruneEffect_def Let_def setSize_def)
  have 3: "set (filter (\<lambda>m. m \<in> set (a # A)) vs) = set vs \<inter> set (a # A)"
    by auto
  show ?thesis
    unfolding 1 2 using 3 by simp
qed

theorem first_prune_intersects_or_clears_witness:
  "hasSetFetched (setMCPValues [''a'', ''b''] (mount (Some ''c1''))) \<noteq> Some (key (setMCPValues [''a'', ''b''] (mount (Some ''c1''))))
   \<and> mcpValues (setMCPValues [''a'', ''b''] (mount (Some ''c1''))) = Some [''a'', ''b'']
   \<and> selectedAfter [SetSelected [''a'', ''b''], AvailabilityResolved True (Some [''b'', ''c''])] (mount (Some ''c1'')) = Some [''b'']
   \<and> selectedAfter [SetSelected [''a'', ''b''], AvailabilityResolved True (Some [])] (mount (Some ''c1'')) = Some []"
proof -
  have h: "hasSetFetched (setMCPValues [''a'', ''b''] (mount (Some ''c1''))) \<noteq> Some (key (setMCPValues [''a'', ''b''] (mount (Some ''c1''))))"
    by (simp add: mount_c1)
  have m: "mcpValues (setMCPValues [''a'', ''b''] (mount (Some ''c1''))) = Some [''a'', ''b'']"
    by simp
  from first_prune_intersects_or_clears [OF h m, of "''b''" "[''c'']"] h m
  show ?thesis by (auto simp: selectedAfter_def)
qed

section \<open>Selecting and persisting\<close>

text \<open>
  Claim C6, as the code has it. No operation signals an error to its caller.
  \<open>setSelectedValues\<close> returns without a change when its argument is \<open>undefined\<close>, \<open>null\<close>
  or not an array; an array is stored as it is given, duplicates included, in the agent and
  in the hook; and from a state whose selection is an array every sequence of events runs
  to a state, again with an array as selection, without throwing.
\<close>

theorem setSelected_never_raises:
  assumes "mcpValues s = Some sel"
  shows "(\<exists>s' sel'. run es s = Inr s' \<and> mcpValues s' = Some sel')
     \<and> setSelectedValues Undefined s = s
     \<and> setSelectedValues Null s = s
     \<and> setSelectedValues (Other t) s = s
     \<and> agentMcp (setSelectedValues (Arr vs) s) = Some vs
     \<and> mcpValues (setMCPValues vs s) = Some vs
     \<and> agentMcp (setMCPValues vs s) = Some vs"
proof -
  have 1: "\<exists>s' sel'. run es s = Inr s' \<and> mcpValues s' = Some sel'"
    using assms by (rule run_total)
  have 2: "setSelectedValues Undefined s = s" "setSelectedValues Null s = s"
    "setSelectedValues (Other t) s = s"
    by (simp_all add: setSelectedValues_def truthy_def)
  from 1 2 show ?thesis by simp
qed

theorem setSelected_never_raises_witness:
  "mcpValues (mount (Some ''c1'')) = Some []
   \<and> (\<exists>s'. run [SetSelected [''a'', ''a''], AvailabilityResolved True (Some [''a'']), DefaultsChanged [''time'']]
              (mount (Some ''c1'')) = Inr s')
   \<and> setSelectedValues Null (mount (Some ''c1'')) = mount (Some ''c1'')
   \<and> mcpValues (setMCPValues [''a'', ''a''] (mount (Some ''c1''))) = Some [''a'', ''a'']"
proof -
  have m: "mcpValues (mount (Some ''c1'')) = Some []" by (simp add: mount_c1)
  from setSelected_never_raises [OF m,
      of "[SetSelected [''a'', ''a''], AvailabilityResolved True (Some [''a'']), DefaultsChanged [''time'']]"
         True "[''a'', ''a'']"] m
  show ?thesis by blast
qed

text \<open>
  The claim as stated fails: a value that is not an array is ignored without any error, and
  the duplicate in \<open>[a, a]\<close> is kept.
\<close>

theorem setSelected_no_error_no_dedup_counterexample:
  "setSelectedValues (Other True) (mount (Some ''c1'')) = mount (Some ''c1'')
   \<and> agentMcp (setSelectedValues (Arr [''a'', ''a'']) (mount (Some ''c1''))) = Some [''a'', ''a'']
   \<and> selectedAfter [SetSelected [''a'', ''a'']] (mount (Some ''c1'')) = Some [''a'', ''a'']"
proof -
  have "setSelectedValues (Other True) (mount (Some ''c1'')) = mount (Some ''c1'')"
    by (simp add: setSelectedValues_def truthy_def)
  then show ?thesis by (simp add: selectedAfter_def)
qed

text \<open>
  Claim C4. Every commit through \<open>setMCPValues\<close> invokes the save under the key, also when
  the committed selection is empty, and sets the hook's value and the agent's \<open>mcp\<close>; every
  selection, defaults or availability event that changes the selection leaves the new
  selection as the newest stored snapshot of the key; and a call of \<open>renderSelectedValues\<close>
  leaves the whole state, the storage included, as it was.
\<close>

theorem save_on_every_commit:
  assumes "keepsKey e" and "step e s = Inr s'" and "mcpValues s' \<noteq> mcpValues s"
  shows "(\<exists>sel. mcpValues s' = Some sel \<and> agentMcp s' = Some sel
              \<and> localStorage s' = (LAST_MCP @ key s, sel) # localStorage s)
         \<and> localStorage (setMCPValues v s) = (LAST_MCP @ key s, v) # localStorage s
         \<and> localStorage (setMCPValues [] s) = (LAST_MCP @ key s, []) # localStorage s
         \<and> mcpValues (setMCPValues v s) = Some v
         \<and> agentMcp (setMCPValues v s) = Some v
         \<and> snd (renderLabel defaults localize vals ph s) = s"
proof -
  have 1: "\<exists>sel. mcpValues s' = Some sel \<and> agentMcp s' = Some sel
              \<and> localStorage s' = (LAST_MCP @ key s, sel) # localStorage s"
  proof (cases e)
    case (SetSelected vs)
    with assms(2) show ?thesis by (auto simp: localStorage_setMCPValues)
  next
    case (DefaultsChanged ds)
    with assms(2,3) show ?thesis
      by (auto simp: defaultsEffect_def Let_def localStorage_setMCPValues split: option.splits if_splits)
  next
    case (AvailabilityResolved f A)
    with assms(2,3) show ?thesis
      by (auto simp: pruneEffect_def Let_def localStorage_setMCPValues split: option.splits if_splits)
  next
    case (ConversationChanged c)
    with assms(1) show ?thesis by simp
  qed
  have 2: "snd (renderLabel defaults localize vals ph s) = s"
    by (simp add: renderLabel_def)
  from 1 2 show ?thesis by (simp add: localStorage_setMCPValues)
qed

theorem save_on_every_commit_witness:
  "keepsKey (AvailabilityResolved True (Some []))
   \<and> step (AvailabilityResolved True (Some [])) (setMCPValues [''web''] (mount (Some ''c1'')))
       = Inr (setMCPValues [] ((setMCPValues [''web''] (mount (Some ''c1'')))\<lparr>hasSetFetched := Some ''c1''\<rparr>))
   \<and> mcpValues (setMCPValues [] ((setMCPValues [''web''] (mount (Some ''c1'')))\<lparr>hasSetFetched := Some ''c1''\<rparr>))
       \<noteq> mcpValues (setMCPValues [''web''] (mount (Some ''c1'')))
   \<and> localStorage (setMCPValues [] ((setMCPValues [''web''] (mount (Some ''c1'')))\<lparr>hasSetFetched := Some ''c1''\<rparr>))
       = [(''LAST_MCP_c1'', []), (''LAST_MCP_c1'', [''web''])]"
proof -
  have k: "keepsKey (AvailabilityResolved True (Some []))" by simp
  have st: "step (AvailabilityResolved True (Some [])) (setMCPValues [''web''] (mount (Some ''c1'')))
       = Inr (setMCPValues [] ((setMCPValues [''web''] (mount (Some ''c1'')))\<lparr>hasSetFetched := Some ''c1''\<rparr>))"
    by (simp add: pruneEffect_def Let_def setSize_def mount_c1)
  have ne: "mcpValues (setMCPValues [] ((setMCPValues [''web''] (mount (Some ''c1'')))\<lparr>hasSetFetched := Some ''c1''\<rparr>))
       \<noteq> mcpValues (setMCPValues [''web''] (mount (Some ''c1'')))"
    by simp
  from save_on_every_commit [OF k st ne, of "[]" "[]" "\<lambda>k n. k" "[]" None] k st ne
  show ?thesis by (simp add: localStorage_setMCPValues mount_c1 LAST_MCP_def)
qed

text \<open>
  The predicate handed to the hook rejects an empty array while nothing, or a text of at most
  two characters, is stored, and accepts every non-empty array.
\<close>

lemma storageCondition_cases:
  "storageCondition (Arr []) None = False"
  "storageCondition (Arr []) (Some ''[]'') = False"
  "storageCondition (Arr (x # xs)) raw = True"
  by (simp_all add: storageCondition_def isNonEmptyArray_def trim_def isWhiteSpace_def
        split: option.splits)

section \<open>Rendering\<close>

text \<open>
  What \<open>renderSelectedValues\<close> returns, by the values left once the members of the default
  list in its closure are taken out.
\<close>

lemma renderSelectedValues_cases:
  "renderSelectedValues defaults localize vals ph =
     (case filter (\<lambda>v. v \<notin> set defaults) vals of
        [] \<Rightarrow> (case ph of
                 Some (c # p) \<Rightarrow> c # p
               | _ \<Rightarrow> localize ''com_ui_select'' None @ ''...'')
      | [x] \<Rightarrow> x
      | x # y # rest \<Rightarrow> localize ''com_ui_x_selected'' (Some (Suc (Suc (length rest)))))"
  by (simp add: renderSelectedValues_def Let_def split: list.splits option.splits)


text \<open>
  Claim C8. \<open>MultiSelect\<close> returns \<open>null\<close> exactly when every selected value is among the
  names used for filtering: the default server names, or \<open>time\<close> alone when there is no
  default server (and \<open>time\<close> while the server list is loading). The items play no part,
  so in such a state no item can be chosen, whatever the items are.
\<close>

theorem MultiSelect_null_when_only_defaults:
  "(MultiSelect fetched props = None)
     = (set (selectedValues props)
          \<subseteq> set (serverNamesForFiltering (defaultServerNames (mcpServersData fetched))))
   \<and> serverNamesForFiltering [] = [''time'']
   \<and> serverNamesForFiltering (d # ds) = d # ds
   \<and> defaultServerNames (mcpServersData None) = [''time'']"
  by (auto simp: MultiSelect_def Let_def filter_empty_conv serverNamesForFiltering_def
        mcpServersData_def loadingMCPServers_def defaultServerNames_def)

theorem MultiSelect_null_when_only_defaults_witness:
  "MultiSelect (Some [(''time'', Some True), (''web'', None), (''search'', Some False)])
     \<lparr>items = [''web'', ''search''], selectedValues = [''time''], placeholder = Some ''MCP Servers'',
      renderValues = renderSelectedValues [''time''] (\<lambda>k n. k)\<rparr> = None
   \<and> MultiSelect (Some [(''web'', None)])
     \<lparr>items = [''web''], selectedValues = [''time''], placeholder = Some ''MCP Servers'',
      renderValues = renderSelectedValues [] (\<lambda>k n. k)\<rparr> = None"
  using MultiSelect_null_when_only_defaults
     [of "Some [(''time'', Some True), (''web'', None), (''search'', Some False)]"
         "\<lparr>items = [''web'', ''search''], selectedValues = [''time''], placeholder = Some ''MCP Servers'',
           renderValues = renderSelectedValues [''time''] (\<lambda>k n. k)\<rparr>"]
    MultiSelect_null_when_only_defaults
     [of "Some [(''web'', None)]"
         "\<lparr>items = [''web''], selectedValues = [''time''], placeholder = Some ''MCP Servers'',
           renderValues = renderSelectedValues [] (\<lambda>k n. k)\<rparr>"]
  by (simp add: serverNamesForFiltering_def mcpServersData_def defaultServerNames_def)

text \<open>
  Claim C9. \<open>MCPSelect\<close> returns \<open>null\<close> exactly when \<open>mcpServerSet\<close> is \<open>undefined\<close> (as it
  is until the availability query has data) or empty.
\<close>

theorem MCPSelect_null_without_servers:
  "(MCPSelect localize cbDefaults memoDefaults mcpServerSet s = None)
     = (mcpServerSet = None \<or> mcpServerSet = Some [])"
  by (auto simp: MCPSelect_def split: option.splits)

theorem MCPSelect_null_without_servers_witness:
  "MCPSelect (\<lambda>k n. k) [''time''] [''time''] None (mount (Some ''c1'')) = None
   \<and> MCPSelect (\<lambda>k n. k) [''time''] [''time''] (Some []) (mount (Some ''c1'')) = None
   \<and> MCPSelect (\<lambda>k n. k) [''time''] [''time''] (Some [''time'', ''web'']) (mount (Some ''c1'')) \<noteq> None"
  using MCPSelect_null_without_servers [of "\<lambda>k n. k" "[''time'']" "[''time'']" None "mount (Some ''c1'')"]
    MCPSelect_null_without_servers [of "\<lambda>k n. k" "[''time'']" "[''time'']" "Some []" "mount (Some ''c1'')"]
    MCPSelect_null_without_servers [of "\<lambda>k n. k" "[''time'']" "[''time'']" "Some [''time'', ''web'']" "mount (Some ''c1'')"]
  by simp

section \<open>Results about getMCPs\<close>

text \<open>
  Claim C10. \<open>getMCPs\<close> never rejects: for every behaviour of its collaborators it resolves
  to an array; the array is empty when the custom config is missing or has no
  \<open>mcpServers\<close> entry and when a collaborator throws or rejects; so the route answers
  with status 200 and never takes its 500 branch because of \<open>getMCPs\<close>.
\<close>

theorem getMCPs_never_rejects:
  "(\<exists>options. getMCPs env = Inr options)
   \<and> getMCPs (env\<lparr>getCustomConfig := Inr None\<rparr>) = Inr []
   \<and> getMCPs (env\<lparr>getCustomConfig := Inr (Some (cfg\<lparr>mcpServers := None\<rparr>))\<rparr>) = Inr []
   \<and> getMCPs (env\<lparr>getCustomConfig := Inl e\<rparr>) = Inr []
   \<and> getMCPs (env\<lparr>getMCPManager := Inl e\<rparr>) = Inr []
   \<and> getMCPs (env\<lparr>getServerNames := Inl e\<rparr>) = Inr []
   \<and> status (router_get env) = 200"
  by (auto simp: getMCPs_def router_get_def getMCPs_try_def split: sum.splits option.splits)

theorem getMCPs_never_rejects_witness:
  "getMCPs \<lparr>getCustomConfig = Inr (Some \<lparr>mcpServers = Some [''time''], mcpServerConfig = None\<rparr>),
            getMCPManager = Inl ''no manager'', getServerNames = Inr [''time'']\<rparr> = Inr []
   \<and> status (router_get
        (\<lparr>getCustomConfig = Inr (Some \<lparr>mcpServers = Some [''time''], mcpServerConfig = None\<rparr>),
          getMCPManager = Inr (), getServerNames = Inr [''time'']\<rparr> :: string mcpEnv)) = 200"
  using getMCPs_never_rejects
    [of "\<lparr>getCustomConfig = Inr (Some \<lparr>mcpServers = Some [''time''], mcpServerConfig = None\<rparr>),
          getMCPManager = Inr (), getServerNames = Inr [''time'']\<rparr>"
        "\<lparr>mcpServers = Some [''time''], mcpServerConfig = None\<rparr>" "''no manager''"]
  by simp

end
